theory Spec2Isabelle
  imports Main
begin

section \<open>Python strings\<close>

text \<open>
  The scripts \<^verbatim>\<open>scripts/validate_i18n.py\<close> and \<^verbatim>\<open>scripts/find_hardcoded_strings.py\<close>
  work on Python \<^verbatim>\<open>str\<close> values. A \<^verbatim>\<open>str\<close> is modelled as a \<^typ>\<open>string\<close>, one
  \<^typ>\<open>char\<close> per character, and the character classes are those of ASCII text: for other
  characters Python consults the Unicode database, which is not part of the repository.
  Line numbers are the positive integers produced by \<^verbatim>\<open>enumerate(lines, 1)\<close> and are
  modelled as \<^typ>\<open>nat\<close>.
\<close>

datatype py_error = IndexError

abbreviation NL :: char where "NL \<equiv> CHR 0x0A"
abbreviation TAB :: char where "TAB \<equiv> CHR 0x09"
abbreviation SQ :: char where "SQ \<equiv> CHR 0x27"
abbreviation DQ :: char where "DQ \<equiv> CHR 0x22"
abbreviation BSL :: char where "BSL \<equiv> CHR 0x5C"

text \<open>\<^verbatim>\<open>text.startswith(p)\<close> for one prefix, and for a tuple of prefixes.\<close>

fun startswith :: "string \<Rightarrow> string \<Rightarrow> bool" where
  "startswith text [] = True"
| "startswith [] (p # ps) = False"
| "startswith (c # cs) (p # ps) = (c = p \<and> startswith cs ps)"

definition startswith_any :: "string \<Rightarrow> string list \<Rightarrow> bool" where
  "startswith_any text ps = list_ex (startswith text) ps"

text \<open>\<^verbatim>\<open>text.endswith(s)\<close> for one suffix, and for a tuple of suffixes.\<close>

definition endswith :: "string \<Rightarrow> string \<Rightarrow> bool" where
  "endswith text s = startswith (rev text) (rev s)"

definition endswith_any :: "string \<Rightarrow> string list \<Rightarrow> bool" where
  "endswith_any text ss = list_ex (endswith text) ss"

text \<open>\<^verbatim>\<open>sub in text\<close>: the substring test.\<close>

fun contains :: "string \<Rightarrow> string \<Rightarrow> bool" where
  "contains [] sub = (sub = [])"
| "contains (c # cs) sub = (startswith (c # cs) sub \<or> contains cs sub)"

text \<open>\<^verbatim>\<open>text.split(sep)\<close> for a separator of one character: one more part than there are
  separators, empty parts kept.\<close>

fun split_on :: "char \<Rightarrow> string \<Rightarrow> string list" where
  "split_on sep [] = [[]]"
| "split_on sep (c # cs) =
     (if c = sep then [] # split_on sep cs
      else (case split_on sep cs of [] \<Rightarrow> [[c]] | p # ps \<Rightarrow> (c # p) # ps))"

text \<open>The character classes of ASCII: \<^verbatim>\<open>str.isspace\<close>, \<^verbatim>\<open>str.isupper\<close>, the digits, and
  \<^verbatim>\<open>str.lower\<close>.\<close>

definition isspace :: "char \<Rightarrow> bool" where
  "isspace c = (c \<in> set [CHR 0x09, CHR 0x0A, CHR 0x0B, CHR 0x0C, CHR 0x0D,
                           CHR 0x1C, CHR 0x1D, CHR 0x1E, CHR 0x1F, CHR 0x20])"

definition is_lower_az :: "char \<Rightarrow> bool" where
  "is_lower_az c = (c \<in> set ''abcdefghijklmnopqrstuvwxyz'')"

definition isupper :: "char \<Rightarrow> bool" where
  "isupper c = (c \<in> set ''ABCDEFGHIJKLMNOPQRSTUVWXYZ'')"

definition is_digit09 :: "char \<Rightarrow> bool" where
  "is_digit09 c = (c \<in> set ''0123456789'')"

definition lower_char :: "char \<Rightarrow> char" where
  "lower_char c =
     (case map_of (zip ''ABCDEFGHIJKLMNOPQRSTUVWXYZ'' ''abcdefghijklmnopqrstuvwxyz'') c of
        Some d \<Rightarrow> d | None \<Rightarrow> c)"

definition lower :: "string \<Rightarrow> string" where
  "lower text = map lower_char text"

text \<open>\<^verbatim>\<open>text.isdigit()\<close>: false on the empty string.\<close>

definition isdigit :: "string \<Rightarrow> bool" where
  "isdigit text = (text \<noteq> [] \<and> list_all is_digit09 text)"

text \<open>\<^verbatim>\<open>text.strip()\<close> removes the white space at both ends.\<close>

definition strip :: "string \<Rightarrow> string" where
  "strip text = rev (dropWhile isspace (rev (dropWhile isspace text)))"

text \<open>\<^verbatim>\<open>text.split()\<close> with no argument: the maximal runs of characters that are not
  white space.\<close>

fun words_acc :: "string \<Rightarrow> string \<Rightarrow> string list" where
  "words_acc acc [] = (if acc = [] then [] else [rev acc])"
| "words_acc acc (c # cs) =
     (if isspace c then (if acc = [] then words_acc [] cs else rev acc # words_acc [] cs)
      else words_acc (c # acc) cs)"

definition split_ws :: "string \<Rightarrow> string list" where
  "split_ws text = words_acc [] text"

section \<open>The regular expressions of the classifier\<close>

text \<open>
  \<^verbatim>\<open>re.match\<close> anchors at the start of the text. Without the multi-line flag \<^verbatim>\<open>$\<close> holds
  at the end of the text and also just before a newline that ends the text.
\<close>

definition re_dollar :: "string \<Rightarrow> bool" where
  "re_dollar rest = (rest = [] \<or> rest = [NL])"

text \<open>\<^verbatim>\<open>[cls]*$\<close> at the start of \<open>s\<close>: some \<open>k\<close> leading characters are all in the class and
  \<^verbatim>\<open>$\<close> holds after them.\<close>

definition match_star_dollar :: "(char \<Rightarrow> bool) \<Rightarrow> string \<Rightarrow> bool" where
  "match_star_dollar cls s =
     list_ex (\<lambda>k. list_all cls (take k s) \<and> re_dollar (drop k s)) [0..<Suc (length s)]"

definition is_hex :: "char \<Rightarrow> bool" where
  "is_hex c = (c \<in> set ''0123456789abcdefABCDEF'')"

text \<open>\<^verbatim>\<open>^#[0-9a-fA-F]{3,6}$\<close>\<close>

definition match_hex_color :: "string \<Rightarrow> bool" where
  "match_hex_color text =
     (case text of [] \<Rightarrow> False
      | c # cs \<Rightarrow> c = CHR ''#'' \<and>
          list_ex (\<lambda>k. k \<le> length cs \<and> list_all is_hex (take k cs) \<and> re_dollar (drop k cs))
                  [3, 4, 5, 6])"

text \<open>\<^verbatim>\<open>^[a-z][a-zA-Z0-9]*$\<close>, \<^verbatim>\<open>^[a-z][a-z0-9_]*$\<close> and \<^verbatim>\<open>^[a-z][a-z0-9-]*$\<close>\<close>

definition match_camel :: "string \<Rightarrow> bool" where
  "match_camel text =
     (case text of [] \<Rightarrow> False
      | c # cs \<Rightarrow> is_lower_az c \<and>
          match_star_dollar (\<lambda>d. is_lower_az d \<or> isupper d \<or> is_digit09 d) cs)"

definition match_snake :: "string \<Rightarrow> bool" where
  "match_snake text =
     (case text of [] \<Rightarrow> False
      | c # cs \<Rightarrow> is_lower_az c \<and>
          match_star_dollar (\<lambda>d. is_lower_az d \<or> is_digit09 d \<or> d = CHR ''_'') cs)"

definition match_kebab :: "string \<Rightarrow> bool" where
  "match_kebab text =
     (case text of [] \<Rightarrow> False
      | c # cs \<Rightarrow> is_lower_az c \<and>
          match_star_dollar (\<lambda>d. is_lower_az d \<or> is_digit09 d \<or> d = CHR ''-'') cs)"

text \<open>The class \<^verbatim>\<open>[\w\-:[\]()>&+~*.,#%\s]\<close> and the pattern \<^verbatim>\<open>^[\w\-:[\]()>&+~*.,#%\s]+$\<close>\<close>

definition is_word_char :: "char \<Rightarrow> bool" where
  "is_word_char c = (is_lower_az c \<or> isupper c \<or> is_digit09 c \<or> c = CHR ''_'')"

definition is_css_selector_char :: "char \<Rightarrow> bool" where
  "is_css_selector_char c =
     (is_word_char c \<or> c \<in> set ''-:[]()>&+~*.,#%'' \<or> isspace c)"

definition match_css_selector :: "string \<Rightarrow> bool" where
  "match_css_selector text =
     (case text of [] \<Rightarrow> False
      | c # cs \<Rightarrow> is_css_selector_char c \<and> match_star_dollar is_css_selector_char cs)"

section \<open>The heuristic classifier\<close>

subsection \<open>\<^verbatim>\<open>_is_css_class_string\<close> (\<^verbatim>\<open>validate_i18n.py\<close>)\<close>

definition css_indicators :: "string list" where
  "css_indicators =
     [''-'', '':'', ''['', '']'', ''('', '')'', ''%'', ''px'', ''rem'', ''em'', ''vh'', ''vw'',
      ''flex'', ''grid'', ''block'', ''inline'', ''absolute'', ''relative'', ''fixed'',
      ''text'', ''bg'', ''border'', ''rounded'', ''shadow'', ''opacity'', ''transform'']"

definition css_utility_words :: "string list" where
  "css_utility_words =
     [''w'', ''h'', ''p'', ''m'', ''mx'', ''my'', ''px'', ''py'', ''mt'', ''mb'', ''ml'', ''mr'',
      ''pt'', ''pb'', ''pl'', ''pr'', ''top'', ''left'', ''right'', ''bottom'', ''center'',
      ''justify'', ''items'', ''content'', ''self'', ''auto'', ''hidden'', ''block'',
      ''flex'', ''grid'', ''space'', ''gap'', ''min'', ''max'', ''full'']"

text \<open>One pass of the counting loop: does this class add one to \<^verbatim>\<open>css_class_count\<close>?\<close>

definition looks_like_css_class :: "string \<Rightarrow> bool" where
  "looks_like_css_class cls =
     (list_ex (\<lambda>indicator. contains (lower cls) indicator) css_indicators
      \<or> lower cls \<in> set css_utility_words)"

text \<open>
  The last line compares the integer count with the float \<^verbatim>\<open>len(classes) * 0.7\<close>. The
  model compares in integers, \<open>7 * len \<le> 10 * count\<close>. The double nearest to 0.7 is smaller
  than 0.7 by less than 5e-17, so for any length a text can have the float product differs
  from the exact \<open>0.7 * len\<close> by far less than 0.1, and it is not above it when
  \<open>0.7 * len\<close> is an integer: no integer count lies on different sides of the two.
\<close>

definition is_css_class_string :: "string \<Rightarrow> bool" where
  "is_css_class_string text =
     (if text = [] \<or> length text < 3 then False
      else let classes = split_ws text in
        if length classes < 2 then False
        else let css_class_count = length (filter looks_like_css_class classes)
             in 7 * length classes \<le> 10 * css_class_count)"

subsection \<open>The vocabularies\<close>

text \<open>The prefixes, terms and tokens of \<^verbatim>\<open>find_hardcoded_strings.py\<close> come first; the lists of
  \<^verbatim>\<open>validate_i18n.py\<close> are written out in full as well.\<close>

definition fhs_technical_prefixes :: "string list" where
  "fhs_technical_prefixes =
     [''data-'', ''aria-'', ''className'', ''class:'', ''id-'', ''test-'', ''btn-'',
      ''text-'', ''bg-'', ''border-'', ''flex'', ''grid'', ''w-'', ''h-'', ''p-'', ''m-'',
      ''space-'', ''gap-'', ''font-'', ''leading-'', ''tracking-'', ''transform'',
      ''transition'', ''duration-'', ''ease-'', ''scale-'', ''rotate-'', ''translate-'',
      ''shadow-'', ''rounded-'', ''overflow-'', ''z-'', ''opacity-'', ''cursor-'',
      ''select-'', ''pointer-'', ''resize-'', ''outline-'', ''ring-'', ''divide-'']"

definition technical_prefixes :: "string list" where
  "technical_prefixes =
     [''data-'', ''aria-'', ''className'', ''class:'', ''id-'', ''test-'', ''btn-'',
      ''text-'', ''bg-'', ''border-'', ''flex'', ''grid'', ''w-'', ''h-'', ''p-'', ''m-'',
      ''space-'', ''gap-'', ''font-'', ''leading-'', ''tracking-'', ''transform'',
      ''transition'', ''duration-'', ''ease-'', ''scale-'', ''rotate-'', ''translate-'',
      ''shadow-'', ''rounded-'', ''overflow-'', ''z-'', ''opacity-'', ''cursor-'',
      ''select-'', ''pointer-'', ''resize-'', ''outline-'', ''ring-'', ''divide-'',
      ''group'', ''peer'', ''animate-'', ''sr-'', ''not-sr-'', ''focus:'', ''hover:'',
      ''active:'', ''disabled:'', ''checked:'', ''invalid:'', ''valid:'', ''hidden'',
      ''absolute'', ''relative'', ''fixed'', ''sticky'', ''static'', ''inset-'',
      ''top-'', ''right-'', ''bottom-'', ''left-'', ''min-'', ''max-'', ''size-'',
      ''aspect-'', ''col-'', ''row-'', ''place-'', ''justify-'', ''items-'', ''content-'',
      ''self-'', ''order-'', ''basis-'', ''grow'', ''shrink'', ''fill-'', ''stroke-'',
      ''after:'', ''before:'', ''first:'', ''last:'', ''odd:'', ''even:'', ''empty:'',
      ''md:'', ''lg:'', ''xl:'', ''sm:'', ''xs:'', ''2xl:'', ''dark:'', ''light:'',
      ''mx-'', ''my-'', ''mt-'', ''mb-'', ''ml-'', ''mr-'', ''px-'', ''py-'', ''pt-'', ''pb-'',
      ''pl-'', ''pr-'', ''inline-'', ''block'', ''table'', ''flow-'']"

definition url_prefixes :: "string list" where
  "url_prefixes = [''http'', ''www'', ''mailto:'', ''tel:'', ''ftp:'', ''./'']"

definition file_extensions :: "string list" where
  "file_extensions =
     [''tsx'', ''ts'', ''js'', ''css'', ''png'', ''jpg'', ''svg'', ''json'',
      ''html'', ''xml'', ''md'', ''txt'', ''pdf'', ''doc'', ''xlsx'']"

definition fhs_technical_terms :: "string list" where
  "fhs_technical_terms =
     [''div'', ''span'', ''button'', ''input'', ''form'', ''img'', ''svg'', ''path'',
      ''g'', ''rect'', ''circle'', ''true'', ''false'', ''null'', ''undefined'', ''px'',
      ''rem'', ''em'', ''vh'', ''vw'', ''auto'', ''none'', ''block'', ''inline'', ''flex'',
      ''grid'', ''absolute'', ''relative'', ''fixed'', ''sticky'', ''left'', ''right'',
      ''top'', ''bottom'', ''center'', ''start'', ''end'', ''wrap'', ''nowrap'']"

definition technical_terms :: "string list" where
  "technical_terms =
     [''div'', ''span'', ''button'', ''input'', ''form'', ''img'', ''svg'', ''path'',
      ''g'', ''rect'', ''circle'', ''true'', ''false'', ''null'', ''undefined'', ''px'',
      ''rem'', ''em'', ''vh'', ''vw'', ''auto'', ''none'', ''block'', ''inline'', ''flex'',
      ''grid'', ''absolute'', ''relative'', ''fixed'', ''sticky'', ''left'', ''right'',
      ''top'', ''bottom'', ''center'', ''start'', ''end'', ''wrap'', ''nowrap'',
      ''use client'', ''ArrowLeft'', ''ArrowRight'', ''Bold'']"

definition css_unit_suffixes :: "string list" where
  "css_unit_suffixes = [''px'', ''rem'', ''em'', ''%'', ''vh'', ''vw'', ''deg'', ''ms'', ''s'']"

definition fhs_non_ui_strings :: "string list" where
  "fhs_non_ui_strings =
     [''GET'', ''POST'', ''PUT'', ''DELETE'', ''PATCH'', ''HEAD'', ''OPTIONS'',
      ''application/json'', ''text/plain'', ''text/html'', ''image/png'',
      ''Bearer'', ''Basic'', ''Content-Type'', ''Authorization'',
      ''success'', ''error'', ''warning'', ''info'', ''debug'',
      ''created'', ''updated'', ''deleted'']"

definition non_ui_strings :: "string list" where
  "non_ui_strings =
     [''GET'', ''POST'', ''PUT'', ''DELETE'', ''PATCH'', ''HEAD'', ''OPTIONS'',
      ''application/json'', ''text/plain'', ''text/html'', ''image/png'',
      ''Bearer'', ''Basic'', ''Content-Type'', ''Authorization'', ''Accept'',
      ''Accept-Language'', ''Origin'',
      ''success'', ''error'', ''warning'', ''info'', ''debug'',
      ''created'', ''updated'', ''deleted'', ''AbortError'', ''NETWORK_ERROR'',
      ''MEMBERSHIP_ROLE_MEMBER'', ''MEMBERSHIP_ROLE_ADMIN'', ''SERIES_VISIBILITY_OPEN'',
      ''SERIES_VISIBILITY_CLUB_ONLY'', ''CLUB_ADMIN_OR_PLATFORM_OWNER_REQUIRED'',
      ''CLUB_ID_REQUIRED_FOR_NON_PLATFORM_OWNERS'', ''LOGIN_REQUIRED'']"

definition css_selector_substrings :: "string list" where
  "css_selector_substrings = [''[&'', ''::'', ''->'', ''calc('', ''var('', ''min-'', ''max-'']"

definition fhs_common_words :: "string list" where
  "fhs_common_words =
     [''the'', ''and'', ''or'', ''to'', ''for'', ''with'', ''you'', ''your'', ''this'', ''that'',
      ''are'', ''is'', ''was'', ''will'', ''can'', ''have'', ''has'', ''please'', ''error'',
      ''success'', ''failed'', ''loading'', ''create'', ''update'', ''delete'', ''save'',
      ''cancel'', ''submit'', ''confirm'', ''welcome'', ''login'', ''logout'', ''sign'',
      ''email'', ''password'', ''name'', ''user'', ''admin'', ''member'', ''club'', ''player'',
      ''match'', ''series'', ''tournament'', ''league'', ''score'', ''win'', ''lose'',
      ''active'', ''inactive'', ''required'', ''optional'', ''invalid'', ''valid'']"

definition common_words :: "string list" where
  "common_words =
     [''error'', ''failed'', ''success'', ''loading'', ''please'', ''welcome'', ''invalid'',
      ''required'', ''create'', ''update'', ''delete'', ''save'', ''cancel'', ''confirm'',
      ''login'', ''logout'', ''sign'', ''email'', ''password'', ''name'', ''user'', ''admin'',
      ''member'', ''club'', ''player'', ''match'', ''series'', ''tournament'', ''league'',
      ''score'', ''win'', ''lose'', ''active'', ''inactive'', ''merge'', ''remove'',
      ''promote'', ''demote'', ''invite'']"

definition sentence_punctuation :: "string list" where
  "sentence_punctuation = [''.'', ''!'', ''?'', '':'', '';'', '','']"

definition user_facing_suffixes :: "string list" where
  "user_facing_suffixes = [''...'', '':'', ''!'', ''?'']"

subsection \<open>Stage 1: the test of the first \<^verbatim>\<open>if\<close> (``obviously technical'')\<close>

text \<open>\<^verbatim>\<open>'.' in text and len(text.split('.')) == 2 and text.split('.')[1] in [...]\<close>: the index
  1 is read only after the length test.\<close>

definition has_file_extension :: "string \<Rightarrow> bool" where
  "has_file_extension text =
     (contains text ''.'' \<and>
      (case split_on CHR ''.'' text of [a, b] \<Rightarrow> b \<in> set file_extensions | _ \<Rightarrow> False))"

text \<open>The disjuncts that the two scripts share, but for the vocabularies.\<close>

definition technical_core :: "string list \<Rightarrow> string list \<Rightarrow> string list \<Rightarrow> string \<Rightarrow> bool" where
  "technical_core prefixes terms tokens text =
     (startswith_any text prefixes
      \<or> (contains text ''/'' \<and> \<not> contains text '' '')
      \<or> startswith_any text url_prefixes
      \<or> has_file_extension text
      \<or> (contains text ''@'' \<and> contains text ''.'')
      \<or> length text < 3
      \<or> lower text \<in> set terms
      \<or> endswith_any text css_unit_suffixes
      \<or> match_hex_color text
      \<or> isdigit text \<or> length text = 1
      \<or> strip text = []
      \<or> match_camel text
      \<or> match_snake text
      \<or> match_kebab text
      \<or> text \<in> set tokens)"

text \<open>\<^verbatim>\<open>validate_i18n.py\<close>, lines 82 to 145.\<close>

definition obviously_technical :: "string \<Rightarrow> bool" where
  "obviously_technical text =
     (technical_core technical_prefixes technical_terms non_ui_strings text
      \<or> (match_css_selector text \<and> list_ex (contains text) css_selector_substrings)
      \<or> is_css_class_string text)"

text \<open>\<^verbatim>\<open>find_hardcoded_strings.py\<close>, lines 55 to 97.\<close>

definition fhs_obviously_technical :: "string \<Rightarrow> bool" where
  "fhs_obviously_technical text =
     technical_core fhs_technical_prefixes fhs_technical_terms fhs_non_ui_strings text"

subsection \<open>Stage 2: the returned disjunction (``likely user-facing if'')\<close>

text \<open>
  The first disjunct does not index the text. The second reads \<^verbatim>\<open>text[0]\<close>, which raises
  \<^verbatim>\<open>IndexError\<close> on the empty string; once it has been read, the later \<^verbatim>\<open>text[0]\<close> cannot
  fail.
\<close>

definition likely_user_facing_with :: "string list \<Rightarrow> string \<Rightarrow> py_error + bool" where
  "likely_user_facing_with words text =
     (if contains text '' '' then Inr True
      else (case text of
              [] \<Rightarrow> Inl IndexError
            | c # cs \<Rightarrow> Inr ((isupper c \<and> length text > 4)
                  \<or> list_ex (\<lambda>word. contains (lower text) word) words
                  \<or> list_ex (\<lambda>char. contains text char) sentence_punctuation
                  \<or> endswith_any text user_facing_suffixes
                  \<or> (length text > 3 \<and> length text < 50 \<and> isupper c))))"

subsection \<open>\<^verbatim>\<open>is_likely_user_facing_text\<close>\<close>

definition is_likely_user_facing_text :: "string \<Rightarrow> py_error + bool" where
  "is_likely_user_facing_text text =
     (if obviously_technical text then Inr False
      else likely_user_facing_with common_words text)"

definition fhs_is_likely_user_facing_text :: "string \<Rightarrow> py_error + bool" where
  "fhs_is_likely_user_facing_text text =
     (if fhs_obviously_technical text then Inr False
      else likely_user_facing_with fhs_common_words text)"

section \<open>The annotation parser\<close>

text \<open>The four tests of the loop body of \<^verbatim>\<open>parse_ignore_comments\<close>, in the order of the
  source.\<close>

definition has_file_marker :: "string \<Rightarrow> bool" where
  "has_file_marker line =
     (contains line ''// i18n-ignore-file'' \<or> contains line ''/* i18n-ignore-file'')"

definition has_inline_marker :: "string \<Rightarrow> bool" where
  "has_inline_marker line =
     (contains line ''// i18n-ignore'' \<or> contains line ''/* i18n-ignore'')"

definition has_block_start_marker :: "string \<Rightarrow> bool" where
  "has_block_start_marker line =
     (contains line ''/* i18n-ignore-block */'' \<or> contains line ''// i18n-ignore-block'')"

definition has_block_end_marker :: "string \<Rightarrow> bool" where
  "has_block_end_marker line =
     (contains line ''/* i18n-ignore-block-end */'' \<or> contains line ''// i18n-ignore-block-end'')"

text \<open>The local variables of \<^verbatim>\<open>parse_ignore_comments\<close>. \<^verbatim>\<open>block_start\<close> is \<^verbatim>\<open>None\<close> or a
  line number.\<close>

record ignore_state =
  ignored_lines :: "nat set"
  ignored_blocks :: "(nat \<times> nat) set"
  ignore_entire_file :: bool
  in_ignore_block :: bool
  block_start :: "nat option"

definition initial_ignore_state :: ignore_state where
  "initial_ignore_state =
     \<lparr>ignored_lines = {}, ignored_blocks = {}, ignore_entire_file = False,
      in_ignore_block = False, block_start = None\<rparr>"

text \<open>The truth value of \<^verbatim>\<open>in_ignore_block and block_start\<close>: \<^verbatim>\<open>None\<close> and \<^verbatim>\<open>0\<close> are
  false.\<close>

definition open_block :: "ignore_state \<Rightarrow> nat option" where
  "open_block st =
     (case block_start st of
        None \<Rightarrow> None
      | Some b \<Rightarrow> if in_ignore_block st \<and> b \<noteq> 0 then Some b else None)"

text \<open>One pass of the loop, for the pair \<^verbatim>\<open>(line_num, line)\<close>.\<close>

definition parse_line :: "nat \<times> string \<Rightarrow> ignore_state \<Rightarrow> ignore_state" where
  "parse_line = (\<lambda>(line_num, line) st.
     let st1 = (if has_file_marker line then st\<lparr>ignore_entire_file := True\<rparr> else st);
         st2 = (if has_inline_marker line
                then st1\<lparr>ignored_lines := insert line_num (ignored_lines st1)\<rparr> else st1)
     in if has_block_start_marker line
        then st2\<lparr>in_ignore_block := True, block_start := Some line_num\<rparr>
        else if has_block_end_marker line
        then (case open_block st2 of
                Some b \<Rightarrow> st2\<lparr>ignored_blocks := insert (b, line_num) (ignored_blocks st2),
                              in_ignore_block := False, block_start := None\<rparr>
              | None \<Rightarrow> st2\<lparr>in_ignore_block := False, block_start := None\<rparr>)
        else st2)"

text \<open>\<^verbatim>\<open>content.split('\n')\<close> and \<^verbatim>\<open>enumerate(lines, 1)\<close>.\<close>

definition numbered_lines :: "string \<Rightarrow> (nat \<times> string) list" where
  "numbered_lines content = enumerate 1 (split_on NL content)"

definition parse_ignore_comments :: "string \<Rightarrow> nat set \<times> (nat \<times> nat) set \<times> bool" where
  "parse_ignore_comments content =
     (let st = fold parse_line (numbered_lines content) initial_ignore_state
      in (ignored_lines st, ignored_blocks st, ignore_entire_file st))"

definition is_line_ignored :: "nat \<Rightarrow> nat set \<Rightarrow> (nat \<times> nat) set \<Rightarrow> bool" where
  "is_line_ignored line_num lines blocks =
     (if line_num \<in> lines then True
      else (\<exists>(block_start, block_end) \<in> blocks. block_start \<le> line_num \<and> line_num \<le> block_end))"

section \<open>The literal extractor\<close>

text \<open>
  The two entries of \<^verbatim>\<open>quote_patterns\<close> differ in the quote character \<open>q\<close> only:
  \<^verbatim>\<open>q([^q\\]*(\\.[^q\\]*)*)q\<close>. After the opening quote the body is read in one way only: a
  character other than the quote and the backslash is taken as it is, a backslash takes the
  next character with it (any character but a newline), and the first quote met otherwise
  closes the literal. \<open>scan_body\<close> returns the body (group 1) and the rest of the line after
  the closing quote, or \<open>None\<close> when the line ends first.
\<close>

fun scan_body :: "char \<Rightarrow> string \<Rightarrow> (string \<times> string) option" where
  "scan_body q [] = None"
| "scan_body q (c # cs) =
     (if c = q then Some ([], cs)
      else if c = BSL then
        (case cs of
           [] \<Rightarrow> None
         | d # ds \<Rightarrow> if d = NL then None
                     else map_option (\<lambda>(body, rest). (c # d # body, rest)) (scan_body q ds))
      else map_option (\<lambda>(body, rest). (c # body, rest)) (scan_body q cs))"

text \<open>\<^verbatim>\<open>re.finditer(pattern, line)\<close>: the matches from left to right, none overlapping another,
  each as the pair of \<^verbatim>\<open>match.start()\<close> and \<^verbatim>\<open>match.group(1)\<close>. \<open>pos\<close> is the position
  of the first character of \<open>s\<close> in the line. Where no literal closes, the search goes on
  one character further.\<close>

function finditer :: "char \<Rightarrow> nat \<Rightarrow> string \<Rightarrow> (nat \<times> string) list" where
  "finditer q pos [] = []"
| "finditer q pos (c # cs) =
     (if c = q then
        (case scan_body q cs of
           Some (body, rest) \<Rightarrow> (pos, body) # finditer q (pos + length body + 2) rest
         | None \<Rightarrow> finditer q (Suc pos) cs)
      else finditer q (Suc pos) cs)"
  by pat_completeness auto
termination
proof (relation "measure (\<lambda>(q, pos, s). length s)")
  show "wf (measure (\<lambda>(q, pos, s). length s))"
    by simp
next
  fix q :: char and pos :: nat and c :: char and cs x2 body rest
  assume "c = q" and "scan_body q cs = Some x2" and "(body, rest) = x2"
  then have found: "scan_body q cs = Some (body, rest)"
    by simp
  have "scan_body q s = Some (b, r) \<Longrightarrow> length r \<le> length s" for s b r
  proof (induction q s arbitrary: b r rule: scan_body.induct)
    case (1 q)
    then show ?case by simp
  next
    case (2 q c cs)
    then show ?case
      by (fastforce split: if_splits list.splits)
  qed
  from this [OF found] have "length rest \<le> length cs" .
  then show "((q, pos + length body + 2, rest), (q, pos, c # cs)) \<in> measure (\<lambda>(q, pos, s). length s)"
    by simp
qed auto

definition quote_patterns :: "char list" where
  "quote_patterns = [SQ, DQ]"

text \<open>The matches of one line in the order in which the two nested loops visit them: each
  as the quote character of its pattern, its start and its group 1.\<close>

definition line_matches :: "string \<Rightarrow> (char \<times> nat \<times> string) list" where
  "line_matches line = concat (map (\<lambda>q. map (Pair q) (finditer q 0 line)) quote_patterns)"

text \<open>\<^verbatim>\<open>text.replace(old, new)\<close> for an \<^verbatim>\<open>old\<close> of two characters and a \<^verbatim>\<open>new\<close> of one, and
  the chain of four replacements.\<close>

fun replace2 :: "char \<Rightarrow> char \<Rightarrow> char \<Rightarrow> string \<Rightarrow> string" where
  "replace2 a b new (c # d # cs) =
     (if c = a \<and> d = b then new # replace2 a b new cs else c # replace2 a b new (d # cs))"
| "replace2 a b new cs = cs"

definition unescape :: "string \<Rightarrow> string" where
  "unescape text =
     replace2 BSL CHR ''t'' TAB (replace2 BSL CHR ''n'' NL (replace2 BSL SQ SQ (replace2 BSL DQ DQ text)))"

definition skipped_prefixes :: "string list" where
  "skipped_prefixes = [''import '', ''export '', ''//'', ''/*'', ''*/'', ''<!--'']"

definition skip_line :: "string \<Rightarrow> bool" where
  "skip_line line =
     (startswith_any (strip line) skipped_prefixes \<or> contains line ''eslint-disable'')"

text \<open>Every match that the loops of \<^verbatim>\<open>extract_hardcoded_strings\<close> visit, in the order of the
  visit: line number, quote character of the pattern, start in the line, group 1. A skipped
  line (\<^verbatim>\<open>continue\<close>) contributes none.\<close>

definition line_visits :: "nat \<times> string \<Rightarrow> (nat \<times> char \<times> nat \<times> string) list" where
  "line_visits = (\<lambda>(line_num, line).
     if skip_line line then [] else map (Pair line_num) (line_matches line))"

definition visited_matches :: "string \<Rightarrow> (nat \<times> char \<times> nat \<times> string) list" where
  "visited_matches content = concat (map line_visits (numbered_lines content))"

text \<open>The body of the innermost loop of \<^verbatim>\<open>validate_i18n.py\<close>, over the matches in turn: an
  exception of the classifier ends the function.\<close>

fun collect :: "nat set \<Rightarrow> (nat \<times> nat) set \<Rightarrow> (nat \<times> char \<times> nat \<times> string) list
                 \<Rightarrow> py_error + (string \<times> nat \<times> bool) list" where
  "collect lines blocks [] = Inr []"
| "collect lines blocks ((line_num, q, pos, g) # ms) =
     (let text = unescape g;
          is_ignored = is_line_ignored line_num lines blocks
      in case is_likely_user_facing_text text of
           Inl e \<Rightarrow> Inl e
         | Inr b \<Rightarrow>
             (case collect lines blocks ms of
                Inl e \<Rightarrow> Inl e
              | Inr found \<Rightarrow> Inr (if b then (text, line_num, is_ignored) # found else found)))"

definition extract_hardcoded_strings :: "string \<Rightarrow> string \<Rightarrow> py_error + (string \<times> nat \<times> bool) list" where
  "extract_hardcoded_strings content file_path =
     (case parse_ignore_comments content of
        (lines, blocks, entire_file) \<Rightarrow>
          if entire_file then Inr [] else collect lines blocks (visited_matches content))"

text \<open>The same loops in \<^verbatim>\<open>find_hardcoded_strings.py\<close>, which knows no annotations.\<close>

fun fhs_collect :: "(nat \<times> char \<times> nat \<times> string) list \<Rightarrow> py_error + (string \<times> nat) list" where
  "fhs_collect [] = Inr []"
| "fhs_collect ((line_num, q, pos, g) # ms) =
     (let text = unescape g
      in case fhs_is_likely_user_facing_text text of
           Inl e \<Rightarrow> Inl e
         | Inr b \<Rightarrow>
             (case fhs_collect ms of
                Inl e \<Rightarrow> Inl e
              | Inr found \<Rightarrow> Inr (if b then (text, line_num) # found else found)))"

definition fhs_extract_hardcoded_strings :: "string \<Rightarrow> string \<Rightarrow> py_error + (string \<times> nat) list" where
  "fhs_extract_hardcoded_strings content file_path = fhs_collect (visited_matches content)"

section \<open>Reconciliation\<close>

text \<open>The two accumulators of \<^verbatim>\<open>analyze_frontend_strings\<close> that hold findings: entries are
  \<^verbatim>\<open>(rel_path, line_num, string)\<close>.\<close>

record findings =
  issues :: "(string \<times> nat \<times> string) list"
  ignored_strings :: "(string \<times> nat \<times> string) list"

text \<open>\<^verbatim>\<open>all_translation_keys\<close> is a dictionary from language to key set, given by its items.
  \<^verbatim>\<open>all_known_keys\<close> is filled by one \<^verbatim>\<open>update\<close> per value.\<close>

definition all_known_keys :: "(string \<times> string set) list \<Rightarrow> string set" where
  "all_known_keys all_translation_keys =
     fold (\<lambda>keys known. known \<union> keys) (map snd all_translation_keys) {}"

text \<open>The body of the loop over \<^verbatim>\<open>hardcoded\<close> (lines 324 to 331).\<close>

definition record_finding :: "string \<Rightarrow> string set \<Rightarrow> string \<times> nat \<times> bool \<Rightarrow> findings \<Rightarrow> findings" where
  "record_finding rel_path known = (\<lambda>(string, line_num, is_ignored) acc.
     if is_ignored
     then acc\<lparr>ignored_strings := ignored_strings acc @ [(rel_path, line_num, string)]\<rparr>
     else if string \<in> known
     then acc\<lparr>ignored_strings :=
                ignored_strings acc @ [(rel_path, line_num, string @ '' (known translation key)'')]\<rparr>
     else acc\<lparr>issues := issues acc @ [(rel_path, line_num, string)]\<rparr>)"

text \<open>The part of the \<^verbatim>\<open>try\<close> block of one file that produces findings: the extraction,
  then the loop. An exception leaves the \<^verbatim>\<open>try\<close> block before the loop has run.\<close>

definition analyze_file ::
  "(string \<times> string set) list \<Rightarrow> string \<Rightarrow> string \<Rightarrow> findings \<Rightarrow> py_error + findings" where
  "analyze_file all_translation_keys rel_path content acc =
     (case extract_hardcoded_strings content rel_path of
        Inl e \<Rightarrow> Inl e
      | Inr hardcoded \<Rightarrow>
          Inr (fold (record_finding rel_path (all_known_keys all_translation_keys)) hardcoded acc))"

text \<open>
  \<^verbatim>\<open>validate_translation_keys\<close>. The dictionary \<^verbatim>\<open>translation_files\<close> is given by its items
  (language, file path). Reading a translation file is input and output: \<open>load\<close> stands for
  \<^verbatim>\<open>load_translation_keys\<close>, the set of keys read from a path (empty when the file cannot be
  read). \<open>check_language\<close> is one pass of the loop; the result is the dictionary
  \<^verbatim>\<open>missing_keys\<close>.
\<close>

definition check_language ::
  "(string \<Rightarrow> string set) \<Rightarrow> string set \<Rightarrow> string \<times> string
     \<Rightarrow> (string \<rightharpoonup> string set) \<Rightarrow> (string \<rightharpoonup> string set)" where
  "check_language load used_keys = (\<lambda>(lang, file_path) missing_keys.
     let available_keys = load file_path;
         missing = used_keys - available_keys
     in if missing \<noteq> {} then missing_keys(lang \<mapsto> missing) else missing_keys)"

definition validate_translation_keys ::
  "(string \<Rightarrow> string set) \<Rightarrow> string set \<Rightarrow> (string \<times> string) list \<Rightarrow> (string \<rightharpoonup> string set)" where
  "validate_translation_keys load used_keys translation_files =
     fold (check_language load used_keys) translation_files Map.empty"

section \<open>Notions used in the statements\<close>

text \<open>A text is user-facing for a script when its classifier returns \<^verbatim>\<open>True\<close>.\<close>

definition user_facing :: "string \<Rightarrow> bool" where
  "user_facing text = (is_likely_user_facing_text text = Inr True)"

definition fhs_user_facing :: "string \<Rightarrow> bool" where
  "fhs_user_facing text = (fhs_is_likely_user_facing_text text = Inr True)"

text \<open>The order in which the loops visit two matches: by line; on one line the matches of
  the single-quote pattern before those of the double-quote pattern; for one pattern by
  start.\<close>

fun visit_before :: "nat \<times> char \<times> nat \<times> string \<Rightarrow> nat \<times> char \<times> nat \<times> string \<Rightarrow> bool" where
  "visit_before (n, q, pos, g) (n', q', pos', g') =
     (n < n' \<or> (n = n' \<and> ((q = SQ \<and> q' = DQ) \<or> (q = q' \<and> pos < pos'))))"

text \<open>The order of the specification: by line, and on one line by start, whatever the
  quote character.\<close>

fun reading_order :: "nat \<times> char \<times> nat \<times> string \<Rightarrow> nat \<times> char \<times> nat \<times> string \<Rightarrow> bool" where
  "reading_order (n, q, pos, g) (n', q', pos', g') = (n < n' \<or> (n = n' \<and> pos \<le> pos'))"

text \<open>The line of a visited match, and the text that the loop body makes of its group 1.\<close>

fun match_line :: "nat \<times> char \<times> nat \<times> string \<Rightarrow> nat" where
  "match_line (n, q, pos, g) = n"

fun literal_text :: "nat \<times> char \<times> nat \<times> string \<Rightarrow> string" where
  "literal_text (n, q, pos, g) = unescape g"

section \<open>Properties of the classifier\<close>

lemma endswith_last_char: "text \<noteq> [] \<Longrightarrow> endswith text [last text]"
  by (cases "text" rule: rev_cases) (simp_all add: endswith_def)

lemma short_is_technical: "length text < 3 \<Longrightarrow> technical_core prefixes terms tokens text"
  by (simp add: technical_core_def)

lemma likely_user_facing_with_defined:
  "text \<noteq> [] \<Longrightarrow> \<exists>b. likely_user_facing_with words text = Inr b"
  by (cases "text") (auto simp: likely_user_facing_with_def)

lemma not_technical_nonempty:
  "\<not> obviously_technical text \<Longrightarrow> text \<noteq> []"
  "\<not> fhs_obviously_technical text \<Longrightarrow> text \<noteq> []"
  using short_is_technical [of "text"]
  by (auto simp: obviously_technical_def fhs_obviously_technical_def)

lemma classifier_defined: "\<exists>b. is_likely_user_facing_text text = Inr b"
proof (cases "obviously_technical text")
  case True
  then have "is_likely_user_facing_text text = Inr False"
    by (simp add: is_likely_user_facing_text_def)
  then show ?thesis ..
next
  case False
  then have "text \<noteq> []"
    by (rule not_technical_nonempty)
  then obtain b where "likely_user_facing_with common_words text = Inr b"
    using likely_user_facing_with_defined by blast
  with False show ?thesis
    by (simp add: is_likely_user_facing_text_def)
qed

lemma fhs_classifier_defined: "\<exists>b. fhs_is_likely_user_facing_text text = Inr b"
proof (cases "fhs_obviously_technical text")
  case True
  then have "fhs_is_likely_user_facing_text text = Inr False"
    by (simp add: fhs_is_likely_user_facing_text_def)
  then show ?thesis ..
next
  case False
  then have "text \<noteq> []"
    by (rule not_technical_nonempty)
  then obtain b where "likely_user_facing_with fhs_common_words text = Inr b"
    using likely_user_facing_with_defined by blast
  with False show ?thesis
    by (simp add: fhs_is_likely_user_facing_text_def)
qed

lemma classifier_user_facing: "is_likely_user_facing_text text = Inr (user_facing text)"
  using classifier_defined [of "text"] by (auto simp: user_facing_def)

lemma fhs_classifier_user_facing: "fhs_is_likely_user_facing_text text = Inr (fhs_user_facing text)"
  using fhs_classifier_defined [of "text"] by (auto simp: fhs_user_facing_def)

text \<open>
  Claim C1. In both scripts a text for which the test of the first \<^verbatim>\<open>if\<close> holds, that is
  a text that matches at least one exclusion rule, is classified as technical, whatever the
  inclusion rules say of it; the inclusion rules decide the result only when no exclusion
  rule matches.
\<close>

theorem exclusion_precedence:
  "(obviously_technical text \<longrightarrow> is_likely_user_facing_text text = Inr False)
   \<and> (\<not> obviously_technical text \<longrightarrow>
        is_likely_user_facing_text text = likely_user_facing_with common_words text)
   \<and> (fhs_obviously_technical text \<longrightarrow> fhs_is_likely_user_facing_text text = Inr False)
   \<and> (\<not> fhs_obviously_technical text \<longrightarrow>
        fhs_is_likely_user_facing_text text = likely_user_facing_with fhs_common_words text)"
  by (simp add: is_likely_user_facing_text_def fhs_is_likely_user_facing_text_def)

text \<open>The text \<^verbatim>\<open>text-error message\<close> starts with an excluded prefix and has a space, which
  the first inclusion rule accepts: it is technical in both scripts.\<close>

theorem exclusion_precedence_witness:
  "likely_user_facing_with common_words ''text-error message'' = Inr True
   \<and> likely_user_facing_with fhs_common_words ''text-error message'' = Inr True
   \<and> is_likely_user_facing_text ''text-error message'' = Inr False
   \<and> fhs_is_likely_user_facing_text ''text-error message'' = Inr False"
proof -
  have stage2: "likely_user_facing_with common_words ''text-error message'' = Inr True"
    "likely_user_facing_with fhs_common_words ''text-error message'' = Inr True"
    by (simp_all add: likely_user_facing_with_def)
  have stage1: "obviously_technical ''text-error message''"
    "fhs_obviously_technical ''text-error message''"
    by (simp_all add: obviously_technical_def fhs_obviously_technical_def technical_core_def
        startswith_any_def technical_prefixes_def fhs_technical_prefixes_def)
  from stage1 stage2 exclusion_precedence [of "''text-error message''"] show ?thesis
    by blast
qed

text \<open>
  Claim C9. The classifier of each script returns a boolean for every text and never
  raises. The inclusion rules, which read \<^verbatim>\<open>text[0]\<close>, are reached with a non-empty text
  only: a text of fewer than three characters, the empty one among them, and a text of white
  space alone are technical by the exclusion rules.
\<close>

theorem classifier_total:
  "(\<exists>b. is_likely_user_facing_text text = Inr b)
   \<and> (\<exists>b. fhs_is_likely_user_facing_text text = Inr b)
   \<and> (\<not> obviously_technical text \<longrightarrow> text \<noteq> [])
   \<and> (\<not> fhs_obviously_technical text \<longrightarrow> text \<noteq> [])
   \<and> (length text < 3 \<or> strip text = [] \<longrightarrow>
        is_likely_user_facing_text text = Inr False
        \<and> fhs_is_likely_user_facing_text text = Inr False)"
proof -
  have "obviously_technical text \<and> fhs_obviously_technical text"
    if "length text < 3 \<or> strip text = []"
    using that
    by (auto simp: obviously_technical_def fhs_obviously_technical_def technical_core_def)
  then show ?thesis
    using classifier_defined [of "text"] fhs_classifier_defined [of "text"]
      not_technical_nonempty [of "text"]
    by (auto simp: is_likely_user_facing_text_def fhs_is_likely_user_facing_text_def)
qed

text \<open>On the empty text the inclusion rules alone would raise; the classifier returns
  \<^verbatim>\<open>False\<close>, and so it does on three spaces.\<close>

theorem classifier_total_witness:
  "likely_user_facing_with common_words [] = Inl IndexError
   \<and> is_likely_user_facing_text [] = Inr False
   \<and> fhs_is_likely_user_facing_text [] = Inr False
   \<and> is_likely_user_facing_text ''   '' = Inr False
   \<and> fhs_is_likely_user_facing_text ''   '' = Inr False"
proof -
  have "likely_user_facing_with common_words [] = Inl IndexError"
    by (simp add: likely_user_facing_with_def)
  moreover have "strip ''   '' = []"
    by (simp add: strip_def isspace_def)
  ultimately show ?thesis
    using classifier_total [of "[]"] classifier_total [of "''   ''"]
    by simp
qed

text \<open>
  Claim C10. In both scripts every text whose last character is \<^verbatim>\<open>s\<close> is classified as
  technical: the one-character suffix \<^verbatim>\<open>s\<close> is among the excluded unit suffixes, and the
  exclusion rules are decided before the inclusion rules.
\<close>

theorem trailing_s_is_technical:
  assumes "text \<noteq> []" and "last text = CHR ''s''"
  shows "is_likely_user_facing_text text = Inr False
         \<and> fhs_is_likely_user_facing_text text = Inr False"
proof -
  from assms have "endswith text ''s''"
    using endswith_last_char [of "text"] by simp
  then have "endswith_any text css_unit_suffixes"
    by (simp add: endswith_any_def css_unit_suffixes_def)
  then have "technical_core prefixes terms tokens text" for prefixes terms tokens
    by (simp add: technical_core_def)
  then show ?thesis
    by (simp add: is_likely_user_facing_text_def fhs_is_likely_user_facing_text_def
        obviously_technical_def fhs_obviously_technical_def)
qed

text \<open>The plural sentence \<^verbatim>\<open>Loading results\<close> has a space, a capital and a vocabulary
  word, and is technical all the same.\<close>

theorem trailing_s_is_technical_witness:
  "likely_user_facing_with common_words ''Loading results'' = Inr True
   \<and> likely_user_facing_with fhs_common_words ''Loading results'' = Inr True
   \<and> is_likely_user_facing_text ''Loading results'' = Inr False
   \<and> fhs_is_likely_user_facing_text ''Loading results'' = Inr False"
proof -
  have "likely_user_facing_with common_words ''Loading results'' = Inr True"
    "likely_user_facing_with fhs_common_words ''Loading results'' = Inr True"
    by (simp_all add: likely_user_facing_with_def)
  moreover have "''Loading results'' \<noteq> []" and "last ''Loading results'' = CHR ''s''"
    by simp_all
  from trailing_s_is_technical [OF this]
  have "is_likely_user_facing_text ''Loading results'' = Inr False
         \<and> fhs_is_likely_user_facing_text ''Loading results'' = Inr False" .
  ultimately show ?thesis
    by simp
qed

section \<open>Properties of the annotation parser\<close>

text \<open>The inline marker is the beginning of the file marker and of both spellings of the
  block-start marker, and the line spelling of the block-start marker is the beginning of
  the line spelling of the block-end marker.\<close>

lemma startswith_prefix: "startswith s (p @ r) \<Longrightarrow> startswith s p"
  by (induction s p rule: startswith.induct) auto

lemma contains_prefix: "contains s (p @ r) \<Longrightarrow> contains s p"
  by (induction s) (auto dest: startswith_prefix)

lemma file_marker_is_inline: "has_file_marker l \<Longrightarrow> has_inline_marker l"
  using contains_prefix [of l "''// i18n-ignore''" "''-file''"]
    contains_prefix [of l "''/* i18n-ignore''" "''-file''"]
  by (auto simp: has_file_marker_def has_inline_marker_def)

lemma block_start_marker_is_inline: "has_block_start_marker l \<Longrightarrow> has_inline_marker l"
  using contains_prefix [of l "''// i18n-ignore''" "''-block''"]
    contains_prefix [of l "''/* i18n-ignore''" "''-block */''"]
  by (auto simp: has_block_start_marker_def has_inline_marker_def)

lemma line_end_marker_is_block_start:
  "contains l ''// i18n-ignore-block-end'' \<Longrightarrow> has_block_start_marker l"
  using contains_prefix [of l "''// i18n-ignore-block''" "''-end''"]
  by (auto simp: has_block_start_marker_def)

text \<open>A line with the line spelling of the block-end marker takes the block-start branch:
  whatever the state, it records no range.\<close>

lemma line_end_marker_records_nothing:
  "contains l ''// i18n-ignore-block-end'' \<Longrightarrow>
   ignored_blocks (parse_line (n, l) st) = ignored_blocks st"
  by (simp add: parse_line_def Let_def line_end_marker_is_block_start)

lemma open_block_simps [simp]:
  "open_block (st\<lparr>ignore_entire_file := f\<rparr>) = open_block st"
  "open_block (st\<lparr>ignored_lines := il\<rparr>) = open_block st"
  by (simp_all add: open_block_def split: option.split)

lemma parse_line_entire:
  "ignore_entire_file (parse_line (n, l) st) = (ignore_entire_file st \<or> has_file_marker l)"
  by (simp add: parse_line_def Let_def split: option.split)

lemma parse_line_lines:
  "ignored_lines (parse_line (n, l) st) =
     (if has_inline_marker l then insert n (ignored_lines st) else ignored_lines st)"
  by (simp add: parse_line_def Let_def split: option.split)

lemma parse_line_blocks:
  "ignored_blocks (parse_line (n, l) st) =
     (if \<not> has_block_start_marker l \<and> has_block_end_marker l
      then (case open_block st of Some b \<Rightarrow> insert (b, n) (ignored_blocks st) | None \<Rightarrow> ignored_blocks st)
      else ignored_blocks st)"
  by (simp add: parse_line_def Let_def split: option.split)

lemma fold_parse_entire:
  "ignore_entire_file (fold parse_line xs st) =
     (ignore_entire_file st \<or> (\<exists>x \<in> set xs. has_file_marker (snd x)))"
  by (induction xs arbitrary: st) (auto simp: parse_line_entire)

lemma fold_parse_lines:
  "ignored_lines (fold parse_line xs st) =
     ignored_lines st \<union> {n. \<exists>l. (n, l) \<in> set xs \<and> has_inline_marker l}"
  by (induction xs arbitrary: st) (auto simp: parse_line_lines split: if_splits)

lemma fold_parse_blocks:
  "(a, b) \<in> ignored_blocks (fold parse_line xs st) \<Longrightarrow>
     (a, b) \<in> ignored_blocks st
     \<or> (\<exists>l. (b, l) \<in> set xs \<and> has_block_end_marker l \<and> \<not> has_block_start_marker l)"
proof (induction xs arbitrary: st)
  case Nil
  then show ?case by simp
next
  case (Cons x xs)
  obtain n l where x: "x = (n, l)" by (cases x)
  from Cons.prems have "(a, b) \<in> ignored_blocks (fold parse_line xs (parse_line (n, l) st))"
    by (simp add: x)
  from Cons.IH [OF this] show ?case
    by (auto simp: x parse_line_blocks split: if_splits option.splits)
qed

lemma numbered_lines_iff:
  "(n, l) \<in> set (numbered_lines content) \<longleftrightarrow>
     1 \<le> n \<and> n \<le> length (split_on NL content) \<and> split_on NL content ! (n - 1) = l"
  by (auto simp: numbered_lines_def in_set_enumerate_eq)

lemma numbered_lines_unique:
  "(n, l) \<in> set (numbered_lines content) \<Longrightarrow> (n, l') \<in> set (numbered_lines content) \<Longrightarrow> l = l'"
  by (simp add: numbered_lines_iff)

lemma numbered_lines_snd: "snd ` set (numbered_lines content) = set (split_on NL content)"
  by (metis numbered_lines_def map_snd_enumerate set_map)

text \<open>
  Claim C3. When a line of the file holds the file-ignore marker, wherever it is,
  \<^verbatim>\<open>extract_hardcoded_strings\<close> returns the empty list; the findings of the run are then
  what they were before the file: no literal of the file, before or after the marker,
  becomes an issue.
\<close>

theorem whole_file_suppression:
  assumes "line \<in> set (split_on NL content)" and "has_file_marker line"
  shows "extract_hardcoded_strings content file_path = Inr []
         \<and> analyze_file all_translation_keys file_path content acc = Inr acc"
proof -
  from assms(1) have "line \<in> snd ` set (numbered_lines content)"
    by (simp add: numbered_lines_snd)
  then obtain x where "x \<in> set (numbered_lines content)" and "snd x = line"
    by (metis imageE)
  with assms(2) have "ignore_entire_file (fold parse_line (numbered_lines content) initial_ignore_state)"
    by (auto simp: fold_parse_entire)
  then have "extract_hardcoded_strings content file_path = Inr []"
    by (simp add: extract_hardcoded_strings_def parse_ignore_comments_def Let_def)
  then show ?thesis
    by (simp add: analyze_file_def)
qed

text \<open>A user-facing literal on line 1 and the marker on line 2.\<close>

theorem whole_file_suppression_witness:
  "visited_matches (''const a = '' @ [DQ] @ ''Hello world'' @ [DQ] @ '';'' @ [NL] @ ''// i18n-ignore-file'')
     = [(1, DQ, 10, ''Hello world'')]
   \<and> is_likely_user_facing_text ''Hello world'' = Inr True
   \<and> extract_hardcoded_strings
         (''const a = '' @ [DQ] @ ''Hello world'' @ [DQ] @ '';'' @ [NL] @ ''// i18n-ignore-file'')
         ''App.tsx'' = Inr []
   \<and> analyze_file [] ''App.tsx''
         (''const a = '' @ [DQ] @ ''Hello world'' @ [DQ] @ '';'' @ [NL] @ ''// i18n-ignore-file'')
         \<lparr>issues = [], ignored_strings = []\<rparr> = Inr \<lparr>issues = [], ignored_strings = []\<rparr>"
proof -
  have matches:
    "visited_matches (''const a = '' @ [DQ] @ ''Hello world'' @ [DQ] @ '';'' @ [NL] @ ''// i18n-ignore-file'')
       = [(1, DQ, 10, ''Hello world'')]"
    by code_simp
  have facing: "is_likely_user_facing_text ''Hello world'' = Inr True"
    by code_simp
  have line: "''// i18n-ignore-file'' \<in> set (split_on NL
      (''const a = '' @ [DQ] @ ''Hello world'' @ [DQ] @ '';'' @ [NL] @ ''// i18n-ignore-file''))"
    by simp
  have marker: "has_file_marker ''// i18n-ignore-file''"
    by (simp add: has_file_marker_def)
  from matches facing whole_file_suppression [OF line marker] show ?thesis
    by blast
qed

lemma parse_ignore_comments_fold:
  "parse_ignore_comments content = (il, ib, f) \<Longrightarrow>
     il = ignored_lines (fold parse_line (numbered_lines content) initial_ignore_state)
     \<and> ib = ignored_blocks (fold parse_line (numbered_lines content) initial_ignore_state)
     \<and> f = ignore_entire_file (fold parse_line (numbered_lines content) initial_ignore_state)"
  by (auto simp: parse_ignore_comments_def Let_def)

lemma parsed_lines_iff:
  "parse_ignore_comments content = (il, ib, f) \<Longrightarrow>
     n \<in> il \<longleftrightarrow> (\<exists>l. (n, l) \<in> set (numbered_lines content) \<and> has_inline_marker l)"
  by (auto dest!: parse_ignore_comments_fold simp: fold_parse_lines initial_ignore_state_def)

lemma parsed_block_end:
  assumes "parse_ignore_comments content = (il, ib, f)" and "(a, b) \<in> ib"
  shows "\<exists>l. (b, l) \<in> set (numbered_lines content)
             \<and> has_block_end_marker l \<and> \<not> has_block_start_marker l"
proof -
  from assms have "(a, b) \<in> ignored_blocks (fold parse_line (numbered_lines content) initial_ignore_state)"
    by (auto dest!: parse_ignore_comments_fold)
  from fold_parse_blocks [OF this] show ?thesis
    by (simp add: initial_ignore_state_def)
qed

text \<open>
  Claim C8, as amended. A recorded range \<open>(s, e)\<close> makes \<^verbatim>\<open>is_line_ignored\<close> true on every
  line from \<open>s\<close> to \<open>e\<close>, both included, and, when line \<open>e + 1\<close> is not among the ignored
  lines and no other range is recorded, false on line \<open>e + 1\<close>. A block-start marker on line
  \<open>s'\<close> that no block-end marker follows contributes no range: every recorded range ends
  before \<open>s'\<close>, so from \<open>s'\<close> on a line is ignored exactly when it is among the ignored
  lines. The line \<open>s'\<close> of the marker is itself among them, since the inline marker is the
  beginning of the block-start marker.
\<close>

theorem block_boundaries:
  "((s, e) \<in> blocks \<and> s \<le> n \<and> n \<le> e \<longrightarrow> is_line_ignored n lines blocks)
   \<and> (e + 1 \<notin> lines \<longrightarrow> \<not> is_line_ignored (e + 1) lines {(s, e)})
   \<and> (parse_ignore_comments content = (il, ib, f)
        \<and> (s', l) \<in> set (numbered_lines content) \<and> has_block_start_marker l
        \<and> (\<forall>(m, l') \<in> set (numbered_lines content). s' < m \<longrightarrow> \<not> has_block_end_marker l')
      \<longrightarrow> (\<forall>(a, b) \<in> ib. b < s')
          \<and> (\<forall>m \<ge> s'. is_line_ignored m il ib = (m \<in> il))
          \<and> s' \<in> il)"
proof (intro conjI impI)
  assume "(s, e) \<in> blocks \<and> s \<le> n \<and> n \<le> e"
  then show "is_line_ignored n lines blocks"
    by (auto simp: is_line_ignored_def)
next
  assume "e + 1 \<notin> lines"
  then show "\<not> is_line_ignored (e + 1) lines {(s, e)}"
    by (simp add: is_line_ignored_def)
next
  assume hyp: "parse_ignore_comments content = (il, ib, f)
        \<and> (s', l) \<in> set (numbered_lines content) \<and> has_block_start_marker l
        \<and> (\<forall>(m, l') \<in> set (numbered_lines content). s' < m \<longrightarrow> \<not> has_block_end_marker l')"
  then have parsed: "parse_ignore_comments content = (il, ib, f)"
    and start: "(s', l) \<in> set (numbered_lines content)" "has_block_start_marker l"
    and no_end: "\<And>m l'. (m, l') \<in> set (numbered_lines content) \<Longrightarrow> s' < m \<Longrightarrow> \<not> has_block_end_marker l'"
    by auto
  have before: "b < s'" if "(a, b) \<in> ib" for a b
  proof -
    from parsed_block_end [OF parsed that] obtain l' where
      l': "(b, l') \<in> set (numbered_lines content)" "has_block_end_marker l'"
        "\<not> has_block_start_marker l'"
      by blast
    from l'(1,2) no_end have "\<not> s' < b"
      by blast
    moreover have "b \<noteq> s'"
      using numbered_lines_unique [OF start(1)] l'(1,3) start(2) by blast
    ultimately show ?thesis
      by simp
  qed
  then show "\<forall>(a, b) \<in> ib. b < s'"
    by blast
  show "\<forall>m \<ge> s'. is_line_ignored m il ib = (m \<in> il)"
  proof (intro allI impI)
    fix m
    assume "s' \<le> m"
    then have "\<not> (a \<le> m \<and> m \<le> b)" if "(a, b) \<in> ib" for a b
      using before [OF that] by simp
    then show "is_line_ignored m il ib = (m \<in> il)"
      by (auto simp: is_line_ignored_def)
  qed
  from start show "s' \<in> il"
    using parsed_lines_iff [OF parsed] block_start_marker_is_inline by blast
qed

text \<open>The range of the specification, from line 10 to line 15, and a file of two lines
  whose first line opens a block that is never closed.\<close>

theorem block_boundaries_witness:
  "is_line_ignored 10 {} {(10, 15)} \<and> is_line_ignored 15 {} {(10, 15)}
   \<and> \<not> is_line_ignored 16 {} {(10, 15)}
   \<and> parse_ignore_comments (''const a = 1; /* i18n-ignore-block */'' @ [NL] @ ''const b = 2;'')
       = ({1}, {}, False)
   \<and> \<not> is_line_ignored 2 {1} {}"
proof -
  let ?c = "''const a = 1; /* i18n-ignore-block */'' @ [NL] @ ''const b = 2;''"
  have parsed: "parse_ignore_comments ?c = ({1}, {}, False)"
    by code_simp
  have start: "(1, ''const a = 1; /* i18n-ignore-block */'') \<in> set (numbered_lines ?c)"
    by code_simp
  have marker: "has_block_start_marker ''const a = 1; /* i18n-ignore-block */''"
    by code_simp
  have no_end: "\<forall>(m, l') \<in> set (numbered_lines ?c). 1 < m \<longrightarrow> \<not> has_block_end_marker l'"
    by code_simp
  have "is_line_ignored 10 {} {(10, 15)}" "is_line_ignored 15 {} {(10, 15)}"
    "\<not> is_line_ignored 16 {} {(10, 15)}"
    using block_boundaries [where s = 10 and e = 15 and n = 10 and blocks = "{(10, 15)}" and lines = "{}"]
      block_boundaries [where s = 10 and e = 15 and n = 15 and blocks = "{(10, 15)}" and lines = "{}"]
    by simp_all
  moreover have "\<not> is_line_ignored 2 {1} {}"
    using block_boundaries [where content = ?c and il = "{1}" and ib = "{}" and f = False
        and s' = 1 and l = "''const a = 1; /* i18n-ignore-block */''"]
      parsed start marker no_end
    by simp
  ultimately show ?thesis
    using parsed by simp
qed

text \<open>The claim as stated says that an unterminated block suppresses no line. A block-start
  marker after a literal on the same line, never closed: the line is ignored and the literal
  is extracted as ignored.\<close>

theorem unterminated_block_counterexample:
  "has_block_start_marker (''const a = '' @ [DQ] @ ''Hello world'' @ [DQ] @ ''; // i18n-ignore-block'')
   \<and> parse_ignore_comments (''const a = '' @ [DQ] @ ''Hello world'' @ [DQ] @ ''; // i18n-ignore-block'')
       = ({1}, {}, False)
   \<and> is_line_ignored 1 {1} {}
   \<and> extract_hardcoded_strings
        (''const a = '' @ [DQ] @ ''Hello world'' @ [DQ] @ ''; // i18n-ignore-block'') ''App.tsx''
       = Inr [(''Hello world'', 1, True)]"
  by code_simp

text \<open>
  Claim C2. The claim is that a block-end marker in either spelling closes the open block
  and records the range. The line spelling \<^verbatim>\<open>// i18n-ignore-block-end\<close> contains the line
  spelling of the block-start marker, so the first branch of the \<^verbatim>\<open>if\<close> takes the line and
  the \<^verbatim>\<open>elif\<close> that names it is never reached: no range is recorded and the literal between
  the markers is not ignored. The block spelling records the range from line 1 to line 3.
\<close>

theorem line_comment_block_end_reopens:
  "parse_ignore_comments
     (''// i18n-ignore-block'' @ [NL] @ ''const a = '' @ [DQ] @ ''Hello world'' @ [DQ] @ '';''
        @ [NL] @ ''// i18n-ignore-block-end'')
     = ({1, 3}, {}, False)
   \<and> extract_hardcoded_strings
     (''// i18n-ignore-block'' @ [NL] @ ''const a = '' @ [DQ] @ ''Hello world'' @ [DQ] @ '';''
        @ [NL] @ ''// i18n-ignore-block-end'') ''App.tsx''
     = Inr [(''Hello world'', 2, False)]
   \<and> parse_ignore_comments
     (''/* i18n-ignore-block */'' @ [NL] @ ''const a = '' @ [DQ] @ ''Hello world'' @ [DQ] @ '';''
        @ [NL] @ ''/* i18n-ignore-block-end */'')
     = ({1, 3}, {(1, 3)}, False)"
  by code_simp

section \<open>Properties of the extraction and of the findings\<close>

text \<open>The classifier never raises, so the loops return the user-facing literals of the
  visited matches, in the order of the visit.\<close>

lemma collect_eq:
  "collect il ib ms =
     Inr (map (\<lambda>m. (literal_text m, match_line m, is_line_ignored (match_line m) il ib))
              (filter (\<lambda>m. user_facing (literal_text m)) ms))"
  by (induction ms) (auto simp: classifier_user_facing Let_def)

lemma fhs_collect_eq:
  "fhs_collect ms =
     Inr (map (\<lambda>m. (literal_text m, match_line m))
              (filter (\<lambda>m. fhs_user_facing (literal_text m)) ms))"
  by (induction ms) (auto simp: fhs_classifier_user_facing Let_def)

lemma extract_eq:
  "parse_ignore_comments content = (il, ib, False) \<Longrightarrow>
   extract_hardcoded_strings content file_path =
     Inr (map (\<lambda>m. (literal_text m, match_line m, is_line_ignored (match_line m) il ib))
              (filter (\<lambda>m. user_facing (literal_text m)) (visited_matches content)))"
  by (simp add: extract_hardcoded_strings_def collect_eq)

lemma extract_entire:
  "parse_ignore_comments content = (il, ib, True) \<Longrightarrow>
   extract_hardcoded_strings content file_path = Inr []"
  by (simp add: extract_hardcoded_strings_def)

lemma fold_record_issues:
  "issues (fold (record_finding p known) hs acc) =
     issues acc @ map (\<lambda>(s, n, ig). (p, n, s)) (filter (\<lambda>(s, n, ig). \<not> ig \<and> s \<notin> known) hs)"
  by (induction hs arbitrary: acc) (auto simp: record_finding_def split: if_splits)

lemma fold_record_ignored:
  "ignored_strings (fold (record_finding p known) hs acc) =
     ignored_strings acc @
     map (\<lambda>(s, n, ig). (p, n, if ig then s else s @ '' (known translation key)''))
         (filter (\<lambda>(s, n, ig). ig \<or> s \<in> known) hs)"
  by (induction hs arbitrary: acc) (auto simp: record_finding_def split: if_splits)

lemma fold_union: "fold (\<lambda>keys known. known \<union> keys) xs A = A \<union> \<Union> (set xs)"
  by (induction xs arbitrary: A) auto

lemma all_known_keys_eq: "all_known_keys atk = \<Union> (snd ` set atk)"
  by (simp add: all_known_keys_def fold_union)

lemma ignored_entry_mem:
  assumes "(s, n, ig) \<in> set hs" and "ig \<or> s \<in> known"
  shows "(p, n, if ig then s else s @ '' (known translation key)'')
     \<in> set (map (\<lambda>(s, n, ig). (p, n, if ig then s else s @ '' (known translation key)''))
         (filter (\<lambda>(s, n, ig). ig \<or> s \<in> known) hs))"
proof -
  from assms have "(s, n, ig) \<in> set (filter (\<lambda>(s, n, ig). ig \<or> s \<in> known) hs)"
    by simp
  then show ?thesis
    unfolding set_map by (rule rev_image_eqI) simp
qed

lemma issue_entry_mem:
  "(p', n, t) \<in> set (map (\<lambda>(s, n, ig). (p, n, s))
      (filter (\<lambda>(s, n, ig). \<not> ig \<and> s \<notin> known) hs))
   \<Longrightarrow> t \<notin> known \<and> (t, n, False) \<in> set hs"
  by auto

lemma extracted_entry_mem:
  assumes "m \<in> set ms" and "is_likely_user_facing_text (literal_text m) = Inr True"
  shows "(literal_text m, match_line m, is_line_ignored (match_line m) il ib)
     \<in> set (map (\<lambda>m. (literal_text m, match_line m, is_line_ignored (match_line m) il ib))
              (filter (\<lambda>m. user_facing (literal_text m)) ms))"
proof -
  from assms have "m \<in> set (filter (\<lambda>m. user_facing (literal_text m)) ms)"
    by (simp add: user_facing_def)
  then show ?thesis
    unfolding set_map by (rule rev_image_eqI) simp
qed

lemma extracted_entry_flag:
  "(t, n, ig) \<in> set (map (\<lambda>m. (literal_text m, match_line m, is_line_ignored (match_line m) il ib)) ms)
   \<Longrightarrow> ig = is_line_ignored n il ib"
  by auto

text \<open>
  Claim C4, as amended. In a file without the file-ignore marker, a user-facing literal
  whose line is ignored, by an inline marker or by a recorded range, is appended to the
  ignored strings of the run, and no literal of an ignored line is appended to the issues.
  In a file that carries the file-ignore marker nothing is extracted, and the findings of
  the run are left as they were: the literals of such a file are in neither list.
\<close>

theorem annotated_literal_recorded:
  "(parse_ignore_comments content = (il, ib, False)
      \<and> m \<in> set (visited_matches content)
      \<and> is_likely_user_facing_text (literal_text m) = Inr True
      \<and> is_line_ignored (match_line m) il ib
    \<longrightarrow> (\<exists>found new_ignored new_issues.
          analyze_file atk rel_path content acc = Inr found
          \<and> ignored_strings found = ignored_strings acc @ new_ignored
          \<and> (rel_path, match_line m, literal_text m) \<in> set new_ignored
          \<and> issues found = issues acc @ new_issues
          \<and> (\<forall>(p, n, t) \<in> set new_issues. \<not> is_line_ignored n il ib)))
   \<and> (parse_ignore_comments content = (il, ib, True)
        \<longrightarrow> analyze_file atk rel_path content acc = Inr acc)"
proof (intro conjI impI)
  assume "parse_ignore_comments content = (il, ib, True)"
  then show "analyze_file atk rel_path content acc = Inr acc"
    by (simp add: analyze_file_def extract_entire)
next
  assume hyp: "parse_ignore_comments content = (il, ib, False)
      \<and> m \<in> set (visited_matches content)
      \<and> is_likely_user_facing_text (literal_text m) = Inr True
      \<and> is_line_ignored (match_line m) il ib"
  define hs where "hs = map (\<lambda>m. (literal_text m, match_line m, is_line_ignored (match_line m) il ib))
              (filter (\<lambda>m. user_facing (literal_text m)) (visited_matches content))"
  define known where "known = all_known_keys atk"
  define found where "found = fold (record_finding rel_path known) hs acc"
  define new_ignored where "new_ignored =
     map (\<lambda>(s, n, ig). (rel_path, n, if ig then s else s @ '' (known translation key)''))
         (filter (\<lambda>(s, n, ig). ig \<or> s \<in> known) hs)"
  define new_issues where "new_issues =
     map (\<lambda>(s, n, ig). (rel_path, n, s)) (filter (\<lambda>(s, n, ig). \<not> ig \<and> s \<notin> known) hs)"
  from hyp have run: "analyze_file atk rel_path content acc = Inr found"
    by (simp add: analyze_file_def extract_eq found_def hs_def known_def)
  have ign: "ignored_strings found = ignored_strings acc @ new_ignored"
    unfolding found_def new_ignored_def by (rule fold_record_ignored)
  have iss: "issues found = issues acc @ new_issues"
    unfolding found_def new_issues_def by (rule fold_record_issues)
  from hyp have "(literal_text m, match_line m, is_line_ignored (match_line m) il ib) \<in> set hs"
    unfolding hs_def by (intro extracted_entry_mem) simp_all
  with hyp have "(literal_text m, match_line m, True) \<in> set hs"
    by simp
  from ignored_entry_mem [OF this, of known rel_path]
  have mem: "(rel_path, match_line m, literal_text m) \<in> set new_ignored"
    by (simp add: new_ignored_def)
  have clean: "\<not> is_line_ignored n il ib" if "(p, n, t) \<in> set new_issues" for p n t
  proof -
    from that have "(t, n, False) \<in> set hs"
      unfolding new_issues_def by (rule issue_entry_mem [THEN conjunct2])
    then show ?thesis
      unfolding hs_def by (auto dest: extracted_entry_flag)
  qed
  then have "\<forall>(p, n, t) \<in> set new_issues. \<not> is_line_ignored n il ib"
    by blast
  with run ign iss mem show "\<exists>found new_ignored new_issues.
          analyze_file atk rel_path content acc = Inr found
          \<and> ignored_strings found = ignored_strings acc @ new_ignored
          \<and> (rel_path, match_line m, literal_text m) \<in> set new_ignored
          \<and> issues found = issues acc @ new_issues
          \<and> (\<forall>(p, n, t) \<in> set new_issues. \<not> is_line_ignored n il ib)"
    by (intro exI conjI)
qed

text \<open>A literal on line 2 of a block from line 1 to line 3, and a file with the file-ignore
  marker.\<close>

theorem annotated_literal_recorded_witness:
  "(\<exists>found new_ignored new_issues.
      analyze_file [] ''App.tsx''
        (''/* i18n-ignore-block */'' @ [NL] @ ''const a = '' @ [DQ] @ ''Hello world'' @ [DQ] @ '';''
           @ [NL] @ ''/* i18n-ignore-block-end */'')
        \<lparr>issues = [], ignored_strings = []\<rparr> = Inr found
      \<and> ignored_strings found = [] @ new_ignored
      \<and> (''App.tsx'', 2, ''Hello world'') \<in> set new_ignored
      \<and> issues found = [] @ new_issues
      \<and> (\<forall>(p, n, t) \<in> set new_issues. \<not> is_line_ignored n {1, 3} {(1, 3)}))
   \<and> analyze_file [] ''App.tsx''
        (''const a = '' @ [DQ] @ ''Hello world'' @ [DQ] @ ''; // i18n-ignore-file'')
        \<lparr>issues = [], ignored_strings = []\<rparr> = Inr \<lparr>issues = [], ignored_strings = []\<rparr>"
proof -
  let ?c = "''/* i18n-ignore-block */'' @ [NL] @ ''const a = '' @ [DQ] @ ''Hello world'' @ [DQ] @ '';''
           @ [NL] @ ''/* i18n-ignore-block-end */''"
  let ?d = "''const a = '' @ [DQ] @ ''Hello world'' @ [DQ] @ ''; // i18n-ignore-file''"
  have in_block: "parse_ignore_comments ?c = ({1, 3}, {(1, 3)}, False)
      \<and> (2, DQ, 10, ''Hello world'') \<in> set (visited_matches ?c)
      \<and> is_likely_user_facing_text (literal_text (2, DQ, 10, ''Hello world'')) = Inr True
      \<and> is_line_ignored (match_line (2, DQ, 10, ''Hello world'')) {1, 3} {(1, 3)}"
    by code_simp
  have whole: "parse_ignore_comments ?d = ({1}, {}, True)"
    by code_simp
  have lit: "unescape ''Hello world'' = ''Hello world''"
    by code_simp
  from annotated_literal_recorded [where content = ?c and m = "(2, DQ, 10, ''Hello world'')"
      and il = "{1, 3}" and ib = "{(1, 3)}" and atk = "[]" and rel_path = "''App.tsx''"
      and acc = "\<lparr>issues = [], ignored_strings = []\<rparr>", THEN conjunct1, rule_format, OF in_block]
    annotated_literal_recorded [where content = ?d and il = "{1}" and ib = "{}" and atk = "[]"
      and rel_path = "''App.tsx''" and acc = "\<lparr>issues = [], ignored_strings = []\<rparr>",
      THEN conjunct2, rule_format, OF whole]
  show ?thesis
    by (simp add: lit)
qed

text \<open>The claim as stated counts a user-facing literal of a file with the file-ignore
  marker among the ignored strings. The marker on line 1 and a user-facing literal on line
  2: the run records nothing.\<close>

theorem whole_file_literal_dropped_counterexample:
  "visited_matches (''// i18n-ignore-file'' @ [NL] @ ''const a = '' @ [DQ] @ ''Hello world'' @ [DQ] @ '';'')
     = [(2, DQ, 10, ''Hello world'')]
   \<and> is_likely_user_facing_text ''Hello world'' = Inr True
   \<and> parse_ignore_comments
        (''// i18n-ignore-file'' @ [NL] @ ''const a = '' @ [DQ] @ ''Hello world'' @ [DQ] @ '';'')
     = ({1}, {}, True)
   \<and> analyze_file [] ''App.tsx''
        (''// i18n-ignore-file'' @ [NL] @ ''const a = '' @ [DQ] @ ''Hello world'' @ [DQ] @ '';'')
        \<lparr>issues = [], ignored_strings = []\<rparr> = Inr \<lparr>issues = [], ignored_strings = []\<rparr>"
  by code_simp

text \<open>
  Claim C5. A user-facing literal that no annotation suppresses and whose text is a key of
  some language is appended to the ignored strings, with the note that it is a known
  translation key, and no text appended to the issues is a known key.
\<close>

theorem known_key_short_circuit:
  assumes "parse_ignore_comments content = (il, ib, False)"
    and "m \<in> set (visited_matches content)"
    and "is_likely_user_facing_text (literal_text m) = Inr True"
    and "\<not> is_line_ignored (match_line m) il ib"
    and "(lang, keys) \<in> set atk" and "literal_text m \<in> keys"
  shows "\<exists>found new_ignored new_issues.
          analyze_file atk rel_path content acc = Inr found
          \<and> ignored_strings found = ignored_strings acc @ new_ignored
          \<and> (rel_path, match_line m, literal_text m @ '' (known translation key)'') \<in> set new_ignored
          \<and> issues found = issues acc @ new_issues
          \<and> (\<forall>(p, n, t) \<in> set new_issues. t \<notin> all_known_keys atk)
          \<and> literal_text m \<in> all_known_keys atk"
proof -
  define hs where "hs = map (\<lambda>m. (literal_text m, match_line m, is_line_ignored (match_line m) il ib))
              (filter (\<lambda>m. user_facing (literal_text m)) (visited_matches content))"
  define known where "known = all_known_keys atk"
  define found where "found = fold (record_finding rel_path known) hs acc"
  define new_ignored where "new_ignored =
     map (\<lambda>(s, n, ig). (rel_path, n, if ig then s else s @ '' (known translation key)''))
         (filter (\<lambda>(s, n, ig). ig \<or> s \<in> known) hs)"
  define new_issues where "new_issues =
     map (\<lambda>(s, n, ig). (rel_path, n, s)) (filter (\<lambda>(s, n, ig). \<not> ig \<and> s \<notin> known) hs)"
  from assms(1) have run: "analyze_file atk rel_path content acc = Inr found"
    by (simp add: analyze_file_def extract_eq found_def hs_def known_def)
  have ign: "ignored_strings found = ignored_strings acc @ new_ignored"
    unfolding found_def new_ignored_def by (rule fold_record_ignored)
  have iss: "issues found = issues acc @ new_issues"
    unfolding found_def new_issues_def by (rule fold_record_issues)
  from assms(5,6) have is_known: "literal_text m \<in> known"
    unfolding known_def all_known_keys_eq by force
  from assms(2,3) have "(literal_text m, match_line m, is_line_ignored (match_line m) il ib) \<in> set hs"
    unfolding hs_def by (rule extracted_entry_mem)
  with assms(4) have "(literal_text m, match_line m, False) \<in> set hs"
    by simp
  from ignored_entry_mem [OF this, of known rel_path] is_known
  have mem: "(rel_path, match_line m, literal_text m @ '' (known translation key)'') \<in> set new_ignored"
    by (simp add: new_ignored_def)
  have "t \<notin> known" if "(p, n, t) \<in> set new_issues" for p n t
    using that unfolding new_issues_def by (rule issue_entry_mem [THEN conjunct1])
  then have "\<forall>(p, n, t) \<in> set new_issues. t \<notin> known"
    by blast
  with run ign iss mem is_known show ?thesis
    unfolding known_def by (intro exI conjI)
qed

text \<open>The key \<^verbatim>\<open>auth.login.title\<close>, user-facing by its vocabulary word, defined for one
  language of two.\<close>

theorem known_key_short_circuit_witness:
  "\<exists>found new_ignored new_issues.
      analyze_file [(''sv'', {''auth.login.title''}), (''en'', {})] ''App.tsx''
        (''const k = '' @ [DQ] @ ''auth.login.title'' @ [DQ] @ '';'')
        \<lparr>issues = [], ignored_strings = []\<rparr> = Inr found
      \<and> ignored_strings found = [] @ new_ignored
      \<and> (''App.tsx'', 1, ''auth.login.title (known translation key)'') \<in> set new_ignored
      \<and> issues found = [] @ new_issues
      \<and> (\<forall>(p, n, t) \<in> set new_issues.
            t \<notin> all_known_keys [(''sv'', {''auth.login.title''}), (''en'', {})])
      \<and> ''auth.login.title'' \<in> all_known_keys [(''sv'', {''auth.login.title''}), (''en'', {})]"
proof -
  let ?c = "''const k = '' @ [DQ] @ ''auth.login.title'' @ [DQ] @ '';''"
  let ?m = "(1 :: nat, DQ, 10 :: nat, ''auth.login.title'')"
  have parsed: "parse_ignore_comments ?c = ({}, {}, False)"
    by code_simp
  have visited: "?m \<in> set (visited_matches ?c)"
    by code_simp
  have facing: "is_likely_user_facing_text (literal_text ?m) = Inr True"
    by code_simp
  have unsuppressed: "\<not> is_line_ignored (match_line ?m) {} {}"
    by code_simp
  have entry: "(''sv'', {''auth.login.title''}) \<in> set [(''sv'', {''auth.login.title''}), (''en'', {})]"
    by simp
  have key: "literal_text ?m \<in> {''auth.login.title''}"
    by code_simp
  have lit: "unescape ''auth.login.title'' = ''auth.login.title''"
    by code_simp
  from known_key_short_circuit [OF parsed visited facing unsuppressed entry key,
      of "''App.tsx''" "\<lparr>issues = [], ignored_strings = []\<rparr>"]
  show ?thesis
    by (simp add: lit)
qed

section \<open>Properties of the key validation\<close>

lemma check_language_apply:
  "check_language load used_keys (l, fp) m lang =
     (if lang = l \<and> used_keys - load fp \<noteq> {} then Some (used_keys - load fp) else m lang)"
  by (simp add: check_language_def Let_def)

lemma validate_fold:
  "distinct (map fst tf) \<Longrightarrow>
   fold (check_language load used_keys) tf m0 lang =
     (case map_of tf lang of
        None \<Rightarrow> m0 lang
      | Some fp \<Rightarrow> if used_keys - load fp \<noteq> {} then Some (used_keys - load fp) else m0 lang)"
proof (induction tf arbitrary: m0)
  case Nil
  then show ?case by simp
next
  case (Cons x tf)
  obtain l fp where x: "x = (l, fp)" by (cases x)
  from Cons.prems have d: "distinct (map fst tf)" and fresh: "l \<notin> fst ` set tf"
    by (auto simp: x)
  from fresh have none: "map_of tf l = None"
    by (simp add: map_of_eq_None_iff)
  show ?case
    using none by (simp add: x Cons.IH [OF d] check_language_apply split: option.split)
qed

text \<open>
  Claim C6. The languages of \<^verbatim>\<open>translation_files\<close> are the keys of a dictionary, hence
  distinct. The result has an entry for a language exactly when some used key is not among
  the keys loaded for the language, and the entry is the set of those keys; a language that
  is not in \<^verbatim>\<open>translation_files\<close> has no entry; a key defined for every language is in no
  entry.
\<close>

theorem missing_key_detection:
  assumes "distinct (map fst translation_files)"
  shows "((lang, file_path) \<in> set translation_files \<longrightarrow>
           validate_translation_keys load used_keys translation_files lang =
             (if used_keys - load file_path \<noteq> {} then Some (used_keys - load file_path) else None))
         \<and> (lang \<notin> fst ` set translation_files \<longrightarrow>
              validate_translation_keys load used_keys translation_files lang = None)
         \<and> ((\<forall>(l, fp) \<in> set translation_files. key \<in> load fp) \<longrightarrow>
              (\<forall>l missing. validate_translation_keys load used_keys translation_files l = Some missing
                  \<longrightarrow> key \<notin> missing))"
proof -
  have eq: "validate_translation_keys load used_keys translation_files l =
     (case map_of translation_files l of
        None \<Rightarrow> None
      | Some fp \<Rightarrow> if used_keys - load fp \<noteq> {} then Some (used_keys - load fp) else None)" for l
    unfolding validate_translation_keys_def by (simp add: validate_fold [OF assms])
  have one: "validate_translation_keys load used_keys translation_files lang =
             (if used_keys - load file_path \<noteq> {} then Some (used_keys - load file_path) else None)"
    if "(lang, file_path) \<in> set translation_files"
    using that assms by (simp add: eq)
  have two: "validate_translation_keys load used_keys translation_files lang = None"
    if "lang \<notin> fst ` set translation_files"
  proof -
    from that have "map_of translation_files lang = None"
      by (simp add: map_of_eq_None_iff)
    then show ?thesis
      by (simp add: eq)
  qed
  have three: "key \<notin> missing"
    if all: "\<forall>(l, fp) \<in> set translation_files. key \<in> load fp"
      and some: "validate_translation_keys load used_keys translation_files l = Some missing"
    for l missing
  proof -
    from some obtain fp where fp: "map_of translation_files l = Some fp"
      and missing: "missing = used_keys - load fp"
      by (auto simp: eq split: option.splits if_splits)
    from fp have "(l, fp) \<in> set translation_files"
      by (rule map_of_SomeD)
    with all have "key \<in> load fp"
      by blast
    with missing show ?thesis
      by simp
  qed
  from one two three show ?thesis
    by blast
qed

text \<open>Two used keys; the Swedish file lacks \<^verbatim>\<open>errors.notFound\<close>, the English file has
  both. The key that both files define is not in the Swedish entry.\<close>

theorem missing_key_detection_witness:
  "validate_translation_keys
      (\<lambda>path. if path = ''sv.json'' then {''auth.login.title''}
               else {''auth.login.title'', ''errors.notFound''})
      {''auth.login.title'', ''errors.notFound''}
      [(''sv'', ''sv.json''), (''en'', ''en.json'')] ''sv'' = Some {''errors.notFound''}
   \<and> validate_translation_keys
      (\<lambda>path. if path = ''sv.json'' then {''auth.login.title''}
               else {''auth.login.title'', ''errors.notFound''})
      {''auth.login.title'', ''errors.notFound''}
      [(''sv'', ''sv.json''), (''en'', ''en.json'')] ''en'' = None
   \<and> validate_translation_keys
      (\<lambda>path. if path = ''sv.json'' then {''auth.login.title''}
               else {''auth.login.title'', ''errors.notFound''})
      {''auth.login.title'', ''errors.notFound''}
      [(''sv'', ''sv.json''), (''en'', ''en.json'')] ''de'' = None"
proof -
  let ?load = "\<lambda>path. if path = ''sv.json'' then {''auth.login.title''}
               else {''auth.login.title'', ''errors.notFound''}"
  let ?used = "{''auth.login.title'', ''errors.notFound''}"
  let ?tf = "[(''sv'', ''sv.json''), (''en'', ''en.json'')]"
  have d: "distinct (map fst ?tf)"
    by simp
  note inst = missing_key_detection [OF d, of _ _ ?load ?used]
  have "validate_translation_keys ?load ?used ?tf ''sv'' = Some {''errors.notFound''}"
    using inst [of "''sv''" "''sv.json''", THEN conjunct1] by auto
  moreover have "validate_translation_keys ?load ?used ?tf ''en'' = None"
    using inst [of "''en''" "''en.json''", THEN conjunct1] by auto
  moreover have "validate_translation_keys ?load ?used ?tf ''de'' = None"
    using inst [of "''de''", THEN conjunct2, THEN conjunct1] by auto
  ultimately show ?thesis
    by blast
qed

section \<open>The order of the extracted literals\<close>

text \<open>The matches of one pattern in one line have increasing starts.\<close>

lemma finditer_start_bound: "(p, g) \<in> set (finditer q pos s) \<Longrightarrow> pos \<le> p"
  by (induction q pos s arbitrary: p g rule: finditer.induct)
    (fastforce split: if_splits option.splits)+

lemma finditer_sorted: "sorted_wrt (\<lambda>x y. fst x < fst y) (finditer q pos s)"
proof (induction q pos s rule: finditer.induct)
  case (1 q pos)
  then show ?case by simp
next
  case (2 q pos c cs)
  show ?case
  proof (cases "c = q")
    case False
    with 2 show ?thesis by simp
  next
    case True
    show ?thesis
    proof (cases "scan_body q cs")
      case None
      with True 2 show ?thesis by simp
    next
      case (Some br)
      obtain body rest where br: "br = (body, rest)" by (cases br)
      have later: "pos < fst x" if "x \<in> set (finditer q (pos + length body + 2) rest)" for x
        using finditer_start_bound [of "fst x" "snd x" q "pos + length body + 2" rest] that
        by simp
      from 2 later show ?thesis
        by (simp add: True Some br)
    qed
  qed
qed

lemma line_matches_sorted: "sorted_wrt visit_before (map (Pair n) (line_matches line))"
proof -
  have same: "sorted_wrt (\<lambda>x y. visit_before (n, q, x) (n, q, y)) (finditer q 0 line)" for q
    by (rule sorted_wrt_mono_rel [OF _ finditer_sorted]) auto
  show ?thesis
    by (simp add: line_matches_def quote_patterns_def sorted_wrt_append sorted_wrt_map same)
      auto
qed

lemma line_visits_line: "x \<in> set (line_visits (n, l)) \<Longrightarrow> match_line x = n"
  by (auto simp: line_visits_def split: if_splits)

lemma line_visits_sorted: "sorted_wrt visit_before (line_visits (n, l))"
  by (simp add: line_visits_def line_matches_sorted)

lemma concat_enumerate_line:
  "x \<in> set (concat (map line_visits (enumerate k ls))) \<Longrightarrow> k \<le> match_line x"
  by (auto simp: in_set_enumerate_eq dest: line_visits_line)

lemma visited_from_sorted:
  "sorted_wrt visit_before (concat (map line_visits (enumerate k ls)))"
proof (induction ls arbitrary: k)
  case Nil
  then show ?case by simp
next
  case (Cons l ls)
  have cross: "visit_before x y"
    if "x \<in> set (line_visits (k, l))"
      and "y \<in> set (concat (map line_visits (enumerate (Suc k) ls)))" for x y
  proof -
    from that(1) have "match_line x = k"
      by (rule line_visits_line)
    moreover from concat_enumerate_line [OF that(2)] have "Suc k \<le> match_line y" .
    ultimately show ?thesis
      by (cases x; cases y) auto
  qed
  have "sorted_wrt visit_before
      (line_visits (k, l) @ concat (map line_visits (enumerate (Suc k) ls)))"
    unfolding sorted_wrt_append
    using Cons.IH [of "Suc k"] line_visits_sorted [of k l] cross by blast
  then show ?case
    by simp
qed

lemma visited_matches_sorted: "sorted_wrt visit_before (visited_matches content)"
  unfolding visited_matches_def numbered_lines_def by (rule visited_from_sorted)

lemma visited_matches_lines_sorted:
  "sorted (map match_line (filter P (visited_matches content)))"
proof -
  have "sorted_wrt (\<lambda>x y. match_line x \<le> match_line y) (visited_matches content)"
    by (rule sorted_wrt_mono_rel [OF _ visited_matches_sorted]) auto
  then have "sorted_wrt (\<lambda>x y. match_line x \<le> match_line y) (filter P (visited_matches content))"
    by (rule sorted_wrt_filter)
  then show ?thesis
    by (simp add: sorted_wrt_map)
qed

text \<open>
  Claim C7, as amended. In both scripts the extracted literals are the user-facing ones
  among the visited matches, each once for every match (duplicates are kept), in the order
  of the visit: from top to bottom by line; on one line the single-quoted matches first,
  from left to right by start, then the double-quoted matches, from left to right by
  start. The line numbers of the result are therefore in ascending order.
\<close>

theorem extraction_order:
  "sorted_wrt visit_before (visited_matches content)
   \<and> fhs_extract_hardcoded_strings content file_path =
       Inr (map (\<lambda>m. (literal_text m, match_line m))
                (filter (\<lambda>m. fhs_user_facing (literal_text m)) (visited_matches content)))
   \<and> (parse_ignore_comments content = (il, ib, False) \<longrightarrow>
        extract_hardcoded_strings content file_path =
          Inr (map (\<lambda>m. (literal_text m, match_line m, is_line_ignored (match_line m) il ib))
                   (filter (\<lambda>m. user_facing (literal_text m)) (visited_matches content))))
   \<and> (fhs_extract_hardcoded_strings content file_path = Inr found \<longrightarrow> sorted (map snd found))
   \<and> (extract_hardcoded_strings content file_path = Inr hardcoded \<longrightarrow>
        sorted (map (\<lambda>(t, n, ig). n) hardcoded))"
proof (intro conjI impI)
  show "sorted_wrt visit_before (visited_matches content)"
    by (rule visited_matches_sorted)
  show fhs: "fhs_extract_hardcoded_strings content file_path =
       Inr (map (\<lambda>m. (literal_text m, match_line m))
                (filter (\<lambda>m. fhs_user_facing (literal_text m)) (visited_matches content)))"
    by (simp add: fhs_extract_hardcoded_strings_def fhs_collect_eq)
  show "extract_hardcoded_strings content file_path =
          Inr (map (\<lambda>m. (literal_text m, match_line m, is_line_ignored (match_line m) il ib))
                   (filter (\<lambda>m. user_facing (literal_text m)) (visited_matches content)))"
    if "parse_ignore_comments content = (il, ib, False)"
    using that by (rule extract_eq)
  show "sorted (map snd found)" if "fhs_extract_hardcoded_strings content file_path = Inr found"
  proof -
    from that fhs have "map snd found =
        map match_line (filter (\<lambda>m. fhs_user_facing (literal_text m)) (visited_matches content))"
      by (auto simp: comp_def)
    then show ?thesis
      by (simp add: visited_matches_lines_sorted)
  qed
  show "sorted (map (\<lambda>(t, n, ig). n) hardcoded)"
    if run: "extract_hardcoded_strings content file_path = Inr hardcoded"
  proof -
    obtain il' ib' f' where parsed: "parse_ignore_comments content = (il', ib', f')"
      by (cases "parse_ignore_comments content")
    show ?thesis
    proof (cases f')
      case True
      with parsed run show ?thesis
        by (simp add: extract_entire)
    next
      case False
      with parsed run have "map (\<lambda>(t, n, ig). n) hardcoded =
          map match_line (filter (\<lambda>m. user_facing (literal_text m)) (visited_matches content))"
        by (auto simp: extract_eq comp_def)
      then show ?thesis
        by (simp add: visited_matches_lines_sorted)
    qed
  qed
qed

text \<open>Two lines, a literal twice on the first line, a single-quoted literal before a
  double-quoted one on the second.\<close>

theorem extraction_order_witness:
  "visited_matches
     (''a('' @ [DQ] @ ''Hello world'' @ [DQ] @ '', '' @ [DQ] @ ''Hello world'' @ [DQ] @ '')''
        @ [NL] @ ''b('' @ [SQ] @ ''Good morning'' @ [SQ] @ '', '' @ [DQ] @ ''Good evening'' @ [DQ] @ '')'')
     = [(1, DQ, 2, ''Hello world''), (1, DQ, 17, ''Hello world''),
        (2, SQ, 2, ''Good morning''), (2, DQ, 18, ''Good evening'')]
   \<and> sorted_wrt visit_before
        [(1, DQ, 2, ''Hello world''), (1, DQ, 17, ''Hello world''),
         (2, SQ, 2, ''Good morning''), (2, DQ, 18, ''Good evening'')]
   \<and> fhs_extract_hardcoded_strings
     (''a('' @ [DQ] @ ''Hello world'' @ [DQ] @ '', '' @ [DQ] @ ''Hello world'' @ [DQ] @ '')''
        @ [NL] @ ''b('' @ [SQ] @ ''Good morning'' @ [SQ] @ '', '' @ [DQ] @ ''Good evening'' @ [DQ] @ '')'')
     ''App.tsx''
     = Inr [(''Hello world'', 1), (''Hello world'', 1), (''Good morning'', 2), (''Good evening'', 2)]
   \<and> extract_hardcoded_strings
     (''a('' @ [DQ] @ ''Hello world'' @ [DQ] @ '', '' @ [DQ] @ ''Hello world'' @ [DQ] @ '')''
        @ [NL] @ ''b('' @ [SQ] @ ''Good morning'' @ [SQ] @ '', '' @ [DQ] @ ''Good evening'' @ [DQ] @ '')'')
     ''App.tsx''
     = Inr [(''Hello world'', 1, False), (''Hello world'', 1, False),
            (''Good morning'', 2, False), (''Good evening'', 2, False)]
   \<and> sorted (map snd
        [(''Hello world'', 1 :: nat), (''Hello world'', 1), (''Good morning'', 2), (''Good evening'', 2)])"
proof -
  let ?c = "''a('' @ [DQ] @ ''Hello world'' @ [DQ] @ '', '' @ [DQ] @ ''Hello world'' @ [DQ] @ '')''
        @ [NL] @ ''b('' @ [SQ] @ ''Good morning'' @ [SQ] @ '', '' @ [DQ] @ ''Good evening'' @ [DQ] @ '')''"
  have visited: "visited_matches ?c
     = [(1, DQ, 2, ''Hello world''), (1, DQ, 17, ''Hello world''),
        (2, SQ, 2, ''Good morning''), (2, DQ, 18, ''Good evening'')]"
    by code_simp
  have fhs: "fhs_extract_hardcoded_strings ?c ''App.tsx''
     = Inr [(''Hello world'', 1), (''Hello world'', 1), (''Good morning'', 2), (''Good evening'', 2)]"
    by code_simp
  have vi: "extract_hardcoded_strings ?c ''App.tsx''
     = Inr [(''Hello world'', 1, False), (''Hello world'', 1, False),
            (''Good morning'', 2, False), (''Good evening'', 2, False)]"
    by code_simp
  note order = extraction_order [where content = ?c and file_path = "''App.tsx''"]
  from order [THEN conjunct1] have "sorted_wrt visit_before
        [(1, DQ, 2, ''Hello world''), (1, DQ, 17, ''Hello world''),
         (2, SQ, 2, ''Good morning''), (2, DQ, 18, ''Good evening'')]"
    unfolding visited .
  moreover from order [THEN conjunct2, THEN conjunct2, THEN conjunct2, THEN conjunct1, rule_format, OF fhs]
  have "sorted (map snd
        [(''Hello world'', 1 :: nat), (''Hello world'', 1), (''Good morning'', 2), (''Good evening'', 2)])" .
  ultimately show ?thesis
    using visited fhs vi by blast
qed

text \<open>The claim as stated orders the literals of a line by start, whatever the quote
  character. A double-quoted literal at column 2 before a single-quoted one at column 17:
  both scripts return the single-quoted literal first.\<close>

theorem quote_style_order_counterexample:
  "visited_matches (''f('' @ [DQ] @ ''Hello world'' @ [DQ] @ '', '' @ [SQ] @ ''Good morning'' @ [SQ] @ '')'')
     = [(1, SQ, 17, ''Good morning''), (1, DQ, 2, ''Hello world'')]
   \<and> \<not> sorted_wrt reading_order
        (visited_matches
          (''f('' @ [DQ] @ ''Hello world'' @ [DQ] @ '', '' @ [SQ] @ ''Good morning'' @ [SQ] @ '')''))
   \<and> extract_hardcoded_strings
        (''f('' @ [DQ] @ ''Hello world'' @ [DQ] @ '', '' @ [SQ] @ ''Good morning'' @ [SQ] @ '')'')
        ''App.tsx''
     = Inr [(''Good morning'', 1, False), (''Hello world'', 1, False)]
   \<and> fhs_extract_hardcoded_strings
        (''f('' @ [DQ] @ ''Hello world'' @ [DQ] @ '', '' @ [SQ] @ ''Good morning'' @ [SQ] @ '')'')
        ''App.tsx''
     = Inr [(''Good morning'', 1), (''Hello world'', 1)]"
  by code_simp

end
